theory Spec2Isabelle
  imports
    Main
    "HOL-Library.AList"
    "HOL-Library.Char_ord"
    "HOL-Library.List_Lexorder"
    "HOL-Library.Multiset"
begin

section \<open>Data model\<close>

text \<open>
  The embedding follows \<^verbatim>\<open>launcher/ui/dialogs/ResourceDownloadDialog.cpp\<close>.
  A \<^verbatim>\<open>QVariant\<close> id and a \<^verbatim>\<open>QString\<close> are strings; the only operation the dialog
  applies to an id is \<^verbatim>\<open>==\<close>.
\<close>

datatype ResourceProvider = MODRINTH | FLAME

type_synonym QVariant = string

record IndexedPack =
  addonId :: QVariant
  provider :: ResourceProvider
  name :: string

text \<open>
  The fields of \<^verbatim>\<open>ModPlatform::IndexedVersion\<close> that the dialog reads. Its mutable field
  \<^verbatim>\<open>is_currently_selected\<close> is kept apart, in the dialog state below, because the
  dialog writes it through a reference to an object it does not own.
\<close>

record IndexedVersion =
  fileId :: QVariant
  fileName :: string
  custom_target_folder :: string
  required_by :: "QVariant list"

datatype ResourceFolderModel =
  ModFolderModel | ResourcePackFolderModel | TexturePackFolderModel | ShaderPackFolderModel

text \<open>
  \<^verbatim>\<open>makeShared<ResourceDownloadTask>(pack, ver, getBaseModel(), is_indexed)\<close> stores
  its four arguments.
\<close>

record ResourceDownloadTask =
  m_pack :: IndexedPack
  m_pack_version :: IndexedVersion
  m_pack_model :: "ResourceFolderModel option"
  m_is_indexed :: bool

text \<open>
  Modelled from the spec: the accessors of \<^verbatim>\<open>ResourceDownloadTask\<close>, whose class is not
  among the sources. Section 3 of the specification lists filename and custom install
  path as attributes of the version an entry wraps, and the provider as an attribute of
  its package.
\<close>

definition getPack :: "ResourceDownloadTask \<Rightarrow> IndexedPack" where
  "getPack t = m_pack t"

definition getVersion :: "ResourceDownloadTask \<Rightarrow> IndexedVersion" where
  "getVersion t = m_pack_version t"

definition getFilename :: "ResourceDownloadTask \<Rightarrow> string" where
  "getFilename t = fileName (m_pack_version t)"

definition getCustomPath :: "ResourceDownloadTask \<Rightarrow> string" where
  "getCustomPath t = custom_target_folder (m_pack_version t)"

definition getProvider :: "ResourceDownloadTask \<Rightarrow> ResourceProvider" where
  "getProvider t = provider (m_pack t)"

subsection \<open>Pages and the page container\<close>

datatype PageId = Modrinth_id | Flame_id | Other_id

text \<open>
  The page classes the four dialogs create, and \<open>OtherPage\<close> for a \<^verbatim>\<open>BasePage\<close> that is
  not a \<^verbatim>\<open>ResourcePage\<close>.
\<close>

datatype BasePage =
    ModrinthModPage | FlameModPage
  | ModrinthResourcePackPage | FlameResourcePackPage
  | ModrinthTexturePackPage | FlameTexturePackPage
  | ModrinthShaderPackPage
  | OtherPage

text \<open>
  Modelled from the spec: the page classes and \<^verbatim>\<open>PageContainer::getPage\<close> are not among
  the sources. A provider's pages are registered under that provider's id
  (\<^verbatim>\<open>Modrinth::id()\<close>, \<^verbatim>\<open>Flame::id()\<close>), and the lookup yields a null pointer, here
  \<open>None\<close>, when the container holds no page with the id.
\<close>

fun page_id :: "BasePage \<Rightarrow> PageId" where
  "page_id ModrinthModPage = Modrinth_id"
| "page_id ModrinthResourcePackPage = Modrinth_id"
| "page_id ModrinthTexturePackPage = Modrinth_id"
| "page_id ModrinthShaderPackPage = Modrinth_id"
| "page_id FlameModPage = Flame_id"
| "page_id FlameResourcePackPage = Flame_id"
| "page_id FlameTexturePackPage = Flame_id"
| "page_id OtherPage = Other_id"

definition getPage :: "BasePage list \<Rightarrow> PageId \<Rightarrow> BasePage option" where
  "getPage container pid = find (\<lambda>p. page_id p = pid) container"

text \<open>\<^verbatim>\<open>dynamic_cast<ResourcePage*>\<close>: null for a null pointer and for a page of another class.\<close>

fun dynamic_cast_ResourcePage :: "BasePage option \<Rightarrow> BasePage option" where
  "dynamic_cast_ResourcePage None = None"
| "dynamic_cast_ResourcePage (Some OtherPage) = None"
| "dynamic_cast_ResourcePage (Some p) = Some p"

subsection \<open>The dialog\<close>

datatype DialogClass =
  ModDownloadDialog | ResourcePackDownloadDialog | TexturePackDownloadDialog
  | ShaderPackDownloadDialog

datatype DialogCode = Rejected | Accepted

text \<open>
  \<open>m_selected\<close> is the \<^verbatim>\<open>QHash<QString, DownloadTaskPtr>\<close>, as an association list; the
  order of the list stands for the unspecified order in which \<^verbatim>\<open>keys()\<close> enumerates
  the hash.

  Modelled from the spec: the version objects whose \<^verbatim>\<open>is_currently_selected\<close> field the
  dialog writes live in the models of the provider pages, which are not among the
  sources. Following section 9 of the specification the flags are an index from
  (package name, version id) to the flag.
\<close>

record ResourceDownloadDialog =
  dialog_class :: DialogClass
  m_base_model :: "ResourceFolderModel option"
  m_container :: "BasePage list"
  m_selected :: "(string \<times> ResourceDownloadTask) list"
  ok_enabled :: bool
  is_currently_selected :: "string \<times> QVariant \<Rightarrow> bool"
  reject_queued :: bool
  dialog_result :: "DialogCode option"

text \<open>
  \<^verbatim>\<open>getPages\<close> of the four dialog classes; \<open>supportsFlame\<close> is
  \<^verbatim>\<open>APPLICATION->capabilities() & Application::SupportsFlame\<close>.
\<close>

fun getPages :: "DialogClass \<Rightarrow> bool \<Rightarrow> BasePage list" where
  "getPages ModDownloadDialog supportsFlame =
     [ModrinthModPage] @ (if supportsFlame then [FlameModPage] else [])"
| "getPages ResourcePackDownloadDialog supportsFlame =
     [ModrinthResourcePackPage] @ (if supportsFlame then [FlameResourcePackPage] else [])"
| "getPages TexturePackDownloadDialog supportsFlame =
     [ModrinthTexturePackPage] @ (if supportsFlame then [FlameTexturePackPage] else [])"
| "getPages ShaderPackDownloadDialog supportsFlame = [ModrinthShaderPackPage]"

text \<open>
  The constructors: the Ok button starts disabled, nothing is selected, and
  \<^verbatim>\<open>initializeContainer\<close> fills the container from \<^verbatim>\<open>getPages\<close>.
\<close>

definition new_dialog ::
  "DialogClass \<Rightarrow> ResourceFolderModel option \<Rightarrow> bool \<Rightarrow> ResourceDownloadDialog" where
  "new_dialog cls base_model supportsFlame =
     \<lparr> dialog_class = cls,
       m_base_model = base_model,
       m_container = getPages cls supportsFlame,
       m_selected = [],
       ok_enabled = False,
       is_currently_selected = (\<lambda>_. False),
       reject_queued = False,
       dialog_result = None \<rparr>"

section \<open>Adding and removing selections\<close>

datatype Fault = NullPointerDereference

text \<open>
  Modelled from the spec: \<^verbatim>\<open>ResourcePage::removeResourceFromPage\<close> is not among the
  sources. Section 9 of the specification describes a page as able to remove a resource
  by name, and the comment in \<^verbatim>\<open>removeResource\<close> says that after the two page calls
  all versions of the pack are deselected: the call clears the flag of every version of
  the package with that name.
\<close>

definition removeResourceFromPage ::
  "string \<Rightarrow> (string \<times> QVariant \<Rightarrow> bool) \<Rightarrow> (string \<times> QVariant \<Rightarrow> bool)" where
  "removeResourceFromPage n flags = (\<lambda>(p, f). if p = n then False else flags (p, f))"

text \<open>
  One statement
  \<^verbatim>\<open>dynamic_cast<ResourcePage*>(m_container->getPage(id))->removeResourceFromPage(pack.name)\<close>:
  the result of the cast is used unchecked, so a null result is a fault.
\<close>

definition page_removeResource ::
  "PageId \<Rightarrow> string \<Rightarrow> ResourceDownloadDialog \<Rightarrow> Fault + ResourceDownloadDialog" where
  "page_removeResource pid n d =
     (case dynamic_cast_ResourcePage (getPage (m_container d) pid) of
        None \<Rightarrow> Inl NullPointerDereference
      | Some _ \<Rightarrow>
          Inr (d\<lparr>is_currently_selected := removeResourceFromPage n (is_currently_selected d)\<rparr>))"

text \<open>
  \<^verbatim>\<open>removeResource\<close> and \<^verbatim>\<open>addResource\<close>. The version object \<open>ver\<close> is passed by
  reference next to its pack; in the index of flags it is the version \<open>fileId ver\<close> of
  the package \<open>name pack\<close>. Both functions end by enabling the Ok button exactly when
  the hash is not empty.
\<close>

definition removeResource ::
  "IndexedPack \<Rightarrow> IndexedVersion \<Rightarrow> ResourceDownloadDialog \<Rightarrow> Fault + ResourceDownloadDialog" where
  "removeResource pack ver d =
     (case page_removeResource Modrinth_id (name pack) d of
        Inl e \<Rightarrow> Inl e
      | Inr d1 \<Rightarrow>
         (case page_removeResource Flame_id (name pack) d1 of
            Inl e \<Rightarrow> Inl e
          | Inr d2 \<Rightarrow>
              let d3 = d2\<lparr>is_currently_selected :=
                            (is_currently_selected d2)((name pack, fileId ver) := False)\<rparr>;
                  d4 = d3\<lparr>m_selected := AList.delete (name pack) (m_selected d3)\<rparr>
              in Inr (d4\<lparr>ok_enabled := (m_selected d4 \<noteq> [])\<rparr>)))"

definition addResource ::
  "IndexedPack \<Rightarrow> IndexedVersion \<Rightarrow> bool \<Rightarrow> ResourceDownloadDialog
     \<Rightarrow> Fault + ResourceDownloadDialog" where
  "addResource pack ver is_indexed d =
     (case removeResource pack ver d of
        Inl e \<Rightarrow> Inl e
      | Inr d1 \<Rightarrow>
          let d2 = d1\<lparr>is_currently_selected :=
                        (is_currently_selected d1)((name pack, fileId ver) := True)\<rparr>;
              task = \<lparr> m_pack = pack, m_pack_version = ver,
                       m_pack_model = m_base_model d2, m_is_indexed = is_indexed \<rparr>;
              d3 = d2\<lparr>m_selected := AList.update (name pack) task (m_selected d2)\<rparr>
          in Inr (d3\<lparr>ok_enabled := (m_selected d3 \<noteq> [])\<rparr>))"

section \<open>Required-by names\<close>

text \<open>
  \<^verbatim>\<open>getReqiredBy\<close>: for each requested id the keys of the hash are scanned, the first
  entry whose pack has that id contributes its name, and the scan of that id stops.
  \<open>keys\<close> enumerates the hash itself, so the lookup of a key always finds its entry.
\<close>

fun getReqiredBy_inner ::
  "(string \<times> ResourceDownloadTask) list \<Rightarrow> QVariant \<Rightarrow> string list \<Rightarrow> string list
     \<Rightarrow> string list" where
  "getReqiredBy_inner sel r [] req = req"
| "getReqiredBy_inner sel r (task # keys) req =
     (case map_of sel task of
        None \<Rightarrow> getReqiredBy_inner sel r keys req
      | Some t \<Rightarrow>
          let selected = getPack t
          in if addonId selected = r then req @ [name selected]
             else getReqiredBy_inner sel r keys req)"

fun getReqiredBy_outer ::
  "(string \<times> ResourceDownloadTask) list \<Rightarrow> string list \<Rightarrow> QVariant list \<Rightarrow> string list
     \<Rightarrow> string list" where
  "getReqiredBy_outer sel keys [] req = req"
| "getReqiredBy_outer sel keys (r # req_by) req =
     getReqiredBy_outer sel keys req_by (getReqiredBy_inner sel r keys req)"

definition getReqiredBy :: "ResourceDownloadDialog \<Rightarrow> QVariant list \<Rightarrow> string list" where
  "getReqiredBy d req_by =
     getReqiredBy_outer (m_selected d) (map fst (m_selected d)) req_by []"

section \<open>Confirmation\<close>

record PackDependency =
  dep_pack :: IndexedPack
  dep_version :: IndexedVersion

text \<open>
  \<^verbatim>\<open>ModDownloadDialog::getModDependenciesTask\<close>: the request lists the pack and version
  of every entry; there is a task only when the base model is a \<^verbatim>\<open>ModFolderModel\<close>.

  Modelled from the spec: the other dialog classes do not override the function, and its
  default is declared in the header, which is not among the sources. The specification
  has the dependency pass discover required packages for selected mods; the default is
  taken to return the null pointer that \<^verbatim>\<open>confirm\<close> tests for.
\<close>

definition selectedVers :: "ResourceDownloadDialog \<Rightarrow> PackDependency list" where
  "selectedVers d =
     concat (map (\<lambda>task. case map_of (m_selected d) task of
                             None \<Rightarrow> []
                           | Some selected \<Rightarrow>
                               [\<lparr> dep_pack = getPack selected,
                                  dep_version = getVersion selected \<rparr>])
                 (map fst (m_selected d)))"

definition getModDependenciesTask :: "ResourceDownloadDialog \<Rightarrow> PackDependency list option" where
  "getModDependenciesTask d =
     (case dialog_class d of
        ModDownloadDialog \<Rightarrow>
          (case m_base_model d of
             Some ModFolderModel \<Rightarrow> Some (selectedVers d)
           | _ \<Rightarrow> None)
      | _ \<Rightarrow> None)"

text \<open>
  What \<^verbatim>\<open>confirm\<close> observes of one run of the dependency task under the progress dialog:
  the signal the task emitted, the code \<^verbatim>\<open>execWithTask\<close> returned, and the task's
  warnings and dependencies. The task and the progress dialog are collaborators, so a run
  is an input of the model.
\<close>

datatype TaskSignal = Task_failed string | Task_succeeded | Task_aborted

record DependencyRun =
  emitted :: TaskSignal
  execWithTask :: DialogCode
  warnings :: "string list"
  getDependecies :: "PackDependency list"

datatype Icon = Critical | Warning

datatype CustomMessageBox = selectable string string Icon

text \<open>The row type of the review dialog, \<^verbatim>\<open>ReviewMessageBox::ResourceInformation\<close>.\<close>

record ResourceInformation =
  info_name :: string
  info_filename :: string
  info_custom_file_path :: string
  info_provider :: string
  info_required_by :: "string list"

text \<open>
  The collaborators of \<^verbatim>\<open>confirm\<close>: the run of the dependency task for a request, the
  review dialog (the result of \<^verbatim>\<open>exec\<close> and \<^verbatim>\<open>deselectedResources\<close> for the rows it
  was given), and the table of provider display names \<^verbatim>\<open>ProviderCaps.name\<close>.
\<close>

record Collaborators =
  runDependenciesTask :: "PackDependency list \<Rightarrow> DependencyRun"
  reviewExec :: "ResourceInformation list \<Rightarrow> bool \<times> string list"
  ProviderCaps_name :: "ResourceProvider \<Rightarrow> string"

text \<open>\<^verbatim>\<open>QStringList::join\<close>.\<close>

fun join :: "string list \<Rightarrow> string \<Rightarrow> string" where
  "join [] sep = []"
| "join [x] sep = x"
| "join (x # y # ys) sep = x @ sep @ join (y # ys) sep"

text \<open>
  The two slots connected before the task runs: a failure shows its reason in an error
  box, a success shows the warnings, joined by newlines, when there are any.
\<close>

definition task_boxes :: "DependencyRun \<Rightarrow> CustomMessageBox list" where
  "task_boxes run =
     (case emitted run of
        Task_failed reason \<Rightarrow> [selectable ''Error'' reason Critical]
      | Task_succeeded \<Rightarrow>
          (if length (warnings run) \<noteq> 0
           then [selectable ''Warnings'' (join (warnings run) [CHR 0x0A]) Warning]
           else [])
      | Task_aborted \<Rightarrow> [])"

text \<open>The loop \<^verbatim>\<open>for (auto dep : task->getDependecies()) addResource(dep->pack, dep->version, true)\<close>.\<close>

fun addDependencies ::
  "PackDependency list \<Rightarrow> ResourceDownloadDialog \<Rightarrow> Fault + ResourceDownloadDialog" where
  "addDependencies [] d = Inr d"
| "addDependencies (dep # deps) d =
     (case addResource (dep_pack dep) (dep_version dep) True d of
        Inl e \<Rightarrow> Inl e
      | Inr d' \<Rightarrow> addDependencies deps d')"

text \<open>
  \<^verbatim>\<open>keys.sort(Qt::CaseInsensitive)\<close>. Names are compared after case folding, which on
  ASCII letters sets bit 5 of an upper-case letter. The order the source gives to names
  that differ in case only is unspecified (the hash enumerates in no fixed order, and the
  sort is not stable); the model keeps them in the order of the enumeration.
\<close>

definition toCaseFolded_char :: "char \<Rightarrow> char" where
  "toCaseFolded_char c =
     (if CHR ''A'' \<le> c \<and> c \<le> CHR ''Z''
      then (case c of Char b0 b1 b2 b3 b4 b5 b6 b7 \<Rightarrow> Char b0 b1 b2 b3 b4 True b6 b7)
      else c)"

definition toCaseFolded :: "string \<Rightarrow> string" where
  "toCaseFolded s = map toCaseFolded_char s"

definition sort_CaseInsensitive :: "string list \<Rightarrow> string list" where
  "sort_CaseInsensitive keys = sort_key toCaseFolded keys"

text \<open>
  The loop that fills the review dialog: one \<^verbatim>\<open>appendResource\<close> per sorted key.
\<close>

definition appendResource ::
  "Collaborators \<Rightarrow> ResourceDownloadDialog \<Rightarrow> string \<Rightarrow> ResourceInformation list" where
  "appendResource env d task =
     (case map_of (m_selected d) task of
        None \<Rightarrow> []
      | Some selected \<Rightarrow>
          [\<lparr> info_name = task,
             info_filename = getFilename selected,
             info_custom_file_path = getCustomPath selected,
             info_provider = ProviderCaps_name env (getProvider selected),
             info_required_by = getReqiredBy d (required_by (getVersion selected)) \<rparr>])"

definition appendResources ::
  "Collaborators \<Rightarrow> ResourceDownloadDialog \<Rightarrow> ResourceInformation list" where
  "appendResources env d =
     concat (map (appendResource env d) (sort_CaseInsensitive (map fst (m_selected d))))"

text \<open>
  The outcome of one call of \<^verbatim>\<open>confirm\<close>: which way it ended, the message boxes shown,
  the rows given to the review dialog (\<open>None\<close> when \<^verbatim>\<open>confirm\<close> returned before building
  them) and the dialog afterwards.
\<close>

datatype Attempt = Attempt_Aborted | Attempt_Cancelled | Attempt_Accepted

record Confirmation =
  attempt :: Attempt
  boxes :: "CustomMessageBox list"
  plan :: "ResourceInformation list option"
  dialog :: ResourceDownloadDialog

text \<open>\<^verbatim>\<open>accept\<close>, without the saving of the window geometry.\<close>

definition accept :: "ResourceDownloadDialog \<Rightarrow> ResourceDownloadDialog" where
  "accept d = d\<lparr>dialog_result := Some Accepted\<rparr>"

text \<open>
  The second half of \<^verbatim>\<open>confirm\<close>: the rows are built and reviewed; on acceptance every
  deselected name is removed from the hash with \<^verbatim>\<open>m_selected.remove(name)\<close> and the
  dialog is accepted.
\<close>

definition confirm_review ::
  "Collaborators \<Rightarrow> CustomMessageBox list \<Rightarrow> ResourceDownloadDialog \<Rightarrow> Confirmation" where
  "confirm_review env shown d =
     (let rows = appendResources env d;
          (accepted, deselected) = reviewExec env rows
      in if accepted
         then \<lparr> attempt = Attempt_Accepted, boxes = shown, plan = Some rows,
                dialog = accept (d\<lparr>m_selected := fold AList.delete deselected (m_selected d)\<rparr>) \<rparr>
         else \<lparr> attempt = Attempt_Cancelled, boxes = shown, plan = Some rows, dialog = d \<rparr>)"

text \<open>
  \<^verbatim>\<open>confirm\<close>. When there is a dependency task it runs first; a \<open>Rejected\<close> progress
  dialog (the source: ``the dialog was skipped / some download error happened'') queues
  the rejection of the dialog and returns, otherwise the dependencies are added.
\<close>

definition confirm :: "Collaborators \<Rightarrow> ResourceDownloadDialog \<Rightarrow> Fault + Confirmation" where
  "confirm env d =
     (case getModDependenciesTask d of
        None \<Rightarrow> Inr (confirm_review env [] d)
      | Some request \<Rightarrow>
          let run = runDependenciesTask env request
          in if execWithTask run = Rejected
             then Inr \<lparr> attempt = Attempt_Aborted, boxes = task_boxes run, plan = None,
                        dialog = d\<lparr>reject_queued := True\<rparr> \<rparr>
             else (case addDependencies (getDependecies run) d of
                     Inl e \<Rightarrow> Inl e
                   | Inr d' \<Rightarrow> Inr (confirm_review env (task_boxes run) d')))"

section \<open>Notions used to state the properties\<close>

text \<open>Both provider pages that \<^verbatim>\<open>removeResource\<close> looks up are in the container.\<close>

definition pages_located :: "ResourceDownloadDialog \<Rightarrow> bool" where
  "pages_located d =
     (dynamic_cast_ResourcePage (getPage (m_container d) Modrinth_id) \<noteq> None \<and>
      dynamic_cast_ResourcePage (getPage (m_container d) Flame_id) \<noteq> None)"

text \<open>Sequences of calls of the two selection operations.\<close>

datatype SelectionCall =
    AddSelection IndexedPack IndexedVersion bool
  | RemoveSelection IndexedPack IndexedVersion

fun call :: "SelectionCall \<Rightarrow> ResourceDownloadDialog \<Rightarrow> Fault + ResourceDownloadDialog" where
  "call (AddSelection pack ver is_indexed) d = addResource pack ver is_indexed d"
| "call (RemoveSelection pack ver) d = removeResource pack ver d"

fun calls :: "SelectionCall list \<Rightarrow> ResourceDownloadDialog \<Rightarrow> Fault + ResourceDownloadDialog" where
  "calls [] d = Inr d"
| "calls (c # cs) d = (case call c d of Inl e \<Rightarrow> Inl e | Inr d' \<Rightarrow> calls cs d')"

text \<open>
  The keys of the hash are distinct, and a version is flagged exactly when it is the
  version of the entry stored under its package's name.
\<close>

definition selected_version_invariant :: "ResourceDownloadDialog \<Rightarrow> bool" where
  "selected_version_invariant d =
     (distinct (map fst (m_selected d)) \<and>
      (\<forall>n f. is_currently_selected d (n, f)
         = (\<exists>t. (n, t) \<in> set (m_selected d) \<and> fileId (getVersion t) = f)))"

text \<open>
  The specification's \<open>requiredByNames\<close>, in its own words: for each requested id, the
  display name of the first selected entry whose package id is that id, and nothing when
  there is none.
\<close>

definition requiredByNames ::
  "(string \<times> ResourceDownloadTask) list \<Rightarrow> QVariant list \<Rightarrow> string list" where
  "requiredByNames entries ids =
     concat (map (\<lambda>r. case find (\<lambda>e. addonId (getPack (snd e)) = r) entries of
                         None \<Rightarrow> []
                       | Some e \<Rightarrow> [name (getPack (snd e))])
                 ids)"

section \<open>Example dialogs\<close>

text \<open>
  The packages of the scenarios in section 8 of the specification, in a mod dialog with
  both provider pages.
\<close>

definition Fabric_API :: IndexedPack where
  "Fabric_API = \<lparr>addonId = ''P7dR8mSH'', provider = MODRINTH, name = ''Fabric API''\<rparr>"

definition Fabric_API_v1 :: IndexedVersion where
  "Fabric_API_v1 = \<lparr>fileId = ''v1'', fileName = ''fabric-api-1.jar'',
                     custom_target_folder = [], required_by = []\<rparr>"

definition Cloth_Config :: IndexedPack where
  "Cloth_Config = \<lparr>addonId = ''9s6osm5g'', provider = MODRINTH, name = ''Cloth Config''\<rparr>"

definition Cloth_Config_v2 :: IndexedVersion where
  "Cloth_Config_v2 = \<lparr>fileId = ''v2'', fileName = ''cloth-config-2.jar'',
                       custom_target_folder = [], required_by = [''P7dR8mSH'']\<rparr>"

definition Sodium :: IndexedPack where
  "Sodium = \<lparr>addonId = ''AANobbMI'', provider = MODRINTH, name = ''Sodium''\<rparr>"

definition Sodium_v1 :: IndexedVersion where
  "Sodium_v1 = \<lparr>fileId = ''s1'', fileName = ''sodium-1.jar'',
                 custom_target_folder = [], required_by = []\<rparr>"

definition Iris :: IndexedPack where
  "Iris = \<lparr>addonId = ''455508'', provider = FLAME, name = ''Iris''\<rparr>"

definition Iris_v1 :: IndexedVersion where
  "Iris_v1 = \<lparr>fileId = ''i1'', fileName = ''iris-1.jar'',
               custom_target_folder = ''shaders'', required_by = []\<rparr>"

definition mod_task :: "IndexedPack \<Rightarrow> IndexedVersion \<Rightarrow> bool \<Rightarrow> ResourceDownloadTask" where
  "mod_task pack ver is_indexed =
     \<lparr> m_pack = pack, m_pack_version = ver, m_pack_model = Some ModFolderModel,
       m_is_indexed = is_indexed \<rparr>"

text \<open>A mod dialog holding the given entries, each with its version flagged.\<close>

definition mod_dialog_with :: "(string \<times> ResourceDownloadTask) list \<Rightarrow> ResourceDownloadDialog" where
  "mod_dialog_with entries =
     (new_dialog ModDownloadDialog (Some ModFolderModel) True)
       \<lparr> m_selected := entries,
         ok_enabled := (entries \<noteq> []),
         is_currently_selected :=
           (\<lambda>k. k \<in> set (map (\<lambda>e. (fst e, fileId (getVersion (snd e)))) entries)) \<rparr>"

definition fabric_selected :: ResourceDownloadDialog where
  "fabric_selected = mod_dialog_with [(''Fabric API'', mod_task Fabric_API Fabric_API_v1 True)]"

definition sodium_iris_selected :: ResourceDownloadDialog where
  "sodium_iris_selected =
     mod_dialog_with [(''Sodium'', mod_task Sodium Sodium_v1 True),
                      (''Iris'', mod_task Iris Iris_v1 True)]"

definition provider_names :: "ResourceProvider \<Rightarrow> string" where
  "provider_names p = (case p of MODRINTH \<Rightarrow> ''Modrinth'' | FLAME \<Rightarrow> ''CurseForge'')"

text \<open>Collaborators that answer every request with one run and every review alike.\<close>

definition collaborators :: "DependencyRun \<Rightarrow> bool \<times> string list \<Rightarrow> Collaborators" where
  "collaborators run answer =
     \<lparr> runDependenciesTask = (\<lambda>_. run),
       reviewExec = (\<lambda>_. answer),
       ProviderCaps_name = provider_names \<rparr>"

text \<open>A run of the dependency task that succeeds and finds nothing to add.\<close>

definition no_dependencies :: DependencyRun where
  "no_dependencies =
     \<lparr> emitted = Task_succeeded, execWithTask = Accepted, warnings = [], getDependecies = [] \<rparr>"

section \<open>Properties of adding and removing\<close>

subsection \<open>The two operations when both pages are located\<close>

lemma removeResource_located:
  assumes "pages_located d"
  shows "removeResource pack ver d =
     Inr (d\<lparr>is_currently_selected := removeResourceFromPage (name pack) (is_currently_selected d),
            m_selected := AList.delete (name pack) (m_selected d),
            ok_enabled := (AList.delete (name pack) (m_selected d) \<noteq> [])\<rparr>)"
proof -
  have clear: "(removeResourceFromPage n (removeResourceFromPage n fl))((n, f) := False)
      = removeResourceFromPage n fl" for n f and fl :: "string \<times> QVariant \<Rightarrow> bool"
    by (auto simp: removeResourceFromPage_def fun_eq_iff)
  from assms show ?thesis
    by (auto simp: removeResource_def page_removeResource_def pages_located_def Let_def clear
        split: option.splits)
qed

lemma update_absent_appends:
  "k \<notin> fst ` set al \<Longrightarrow> AList.update k v al = al @ [(k, v)]"
  by (induction al) auto

lemma in_set_delete_iff:
  "(n, t) \<in> set (AList.delete k al) \<longleftrightarrow> n \<noteq> k \<and> (n, t) \<in> set al"
  by (auto simp: AList.delete_eq)

lemma addResource_located:
  assumes "pages_located d"
  shows "addResource pack ver is_indexed d =
     Inr (d\<lparr>is_currently_selected :=
              (removeResourceFromPage (name pack) (is_currently_selected d))
                ((name pack, fileId ver) := True),
            m_selected := AList.delete (name pack) (m_selected d)
               @ [(name pack, \<lparr> m_pack = pack, m_pack_version = ver,
                      m_pack_model = m_base_model d, m_is_indexed = is_indexed \<rparr>)],
            ok_enabled := True\<rparr>)"
proof -
  have "name pack \<notin> fst ` set (AList.delete (name pack) (m_selected d))"
    by (auto simp: in_set_delete_iff)
  then have "AList.update (name pack) t (AList.delete (name pack) (m_selected d))
      = AList.delete (name pack) (m_selected d) @ [(name pack, t)]" for t
    by (rule update_absent_appends)
  with assms show ?thesis
    by (simp add: addResource_def removeResource_located Let_def)
qed

lemma pages_located_removeResource:
  "pages_located d \<Longrightarrow> removeResource pack ver d = Inr d' \<Longrightarrow> pages_located d'"
  by (auto simp: removeResource_located pages_located_def)

lemma pages_located_addResource:
  "pages_located d \<Longrightarrow> addResource pack ver b d = Inr d' \<Longrightarrow> pages_located d'"
  by (auto simp: addResource_located pages_located_def)

lemma pages_located_new_dialog:
  "cls \<noteq> ShaderPackDownloadDialog \<Longrightarrow> pages_located (new_dialog cls base_model True)"
  by (cases cls) (simp_all add: pages_located_def new_dialog_def getPage_def)

subsection \<open>The invariant of the selection\<close>

lemma invariant_removeResource:
  assumes "pages_located d" "selected_version_invariant d" "removeResource pack ver d = Inr d'"
  shows "selected_version_invariant d'"
proof -
  have d': "d' = d\<lparr>is_currently_selected :=
                    removeResourceFromPage (name pack) (is_currently_selected d),
                  m_selected := AList.delete (name pack) (m_selected d),
                  ok_enabled := (AList.delete (name pack) (m_selected d) \<noteq> [])\<rparr>"
    using assms(1,3) by (simp add: removeResource_located)
  have "distinct (map fst (m_selected d'))"
    using assms(2) by (simp add: d' selected_version_invariant_def distinct_delete)
  moreover have "is_currently_selected d' (n, f)
      = (\<exists>t. (n, t) \<in> set (m_selected d') \<and> fileId (getVersion t) = f)" for n f
    using assms(2)
    by (auto simp: d' selected_version_invariant_def removeResourceFromPage_def
        in_set_delete_iff)
  ultimately show ?thesis
    by (simp add: selected_version_invariant_def)
qed

lemma invariant_addResource:
  assumes "pages_located d" "selected_version_invariant d" "addResource pack ver b d = Inr d'"
  shows "selected_version_invariant d'"
proof -
  let ?task = "\<lparr> m_pack = pack, m_pack_version = ver,
                  m_pack_model = m_base_model d, m_is_indexed = b \<rparr>"
  have d': "d' = d\<lparr>is_currently_selected :=
                    (removeResourceFromPage (name pack) (is_currently_selected d))
                      ((name pack, fileId ver) := True),
                  m_selected := AList.delete (name pack) (m_selected d) @ [(name pack, ?task)],
                  ok_enabled := True\<rparr>"
    using assms(1,3) by (simp add: addResource_located)
  have "name pack \<notin> fst ` set (AList.delete (name pack) (m_selected d))"
    by (auto simp: in_set_delete_iff)
  then have "distinct (map fst (m_selected d'))"
    using assms(2) by (simp add: d' selected_version_invariant_def distinct_delete)
  moreover have "is_currently_selected d' (n, f)
      = (\<exists>t. (n, t) \<in> set (m_selected d') \<and> fileId (getVersion t) = f)" for n f
    using assms(2)
    by (auto simp: d' selected_version_invariant_def removeResourceFromPage_def
        in_set_delete_iff getVersion_def)
  ultimately show ?thesis
    by (simp add: selected_version_invariant_def)
qed

lemma calls_located:
  "pages_located d \<Longrightarrow> selected_version_invariant d \<Longrightarrow>
     \<exists>d'. calls cs d = Inr d' \<and> pages_located d' \<and> selected_version_invariant d'"
proof (induction cs arbitrary: d)
  case Nil
  then show ?case by simp
next
  case (Cons c cs)
  obtain d1 where d1: "call c d = Inr d1"
    using Cons.prems(1) by (cases c) (simp_all add: addResource_located removeResource_located)
  have "pages_located d1 \<and> selected_version_invariant d1"
    using d1 Cons.prems
    by (cases c) (auto intro: pages_located_removeResource pages_located_addResource
        invariant_removeResource invariant_addResource)
  with Cons.IH [of d1] d1 show ?case by simp
qed

lemma invariant_fresh:
  "m_selected d = [] \<Longrightarrow> \<forall>k. \<not> is_currently_selected d k \<Longrightarrow> selected_version_invariant d"
  by (simp add: selected_version_invariant_def)

lemma invariant_package_flag:
  assumes "selected_version_invariant d"
  shows "(\<exists>f. is_currently_selected d (n, f)) = (n \<in> fst ` set (m_selected d))"
  using assms by (force simp: selected_version_invariant_def)

text \<open>
  C1. Start from a dialog in which nothing is selected and no version is flagged, and
  in which both provider pages are located. Then every sequence of \<^verbatim>\<open>addResource\<close> and
  \<^verbatim>\<open>removeResource\<close> calls runs to the end, and afterwards the hash has at most one
  entry per package name, a package has a flagged version if and only if it has an
  entry, and the flagged version is the version of that entry.
\<close>

theorem selection_calls_keep_one_entry_and_flag:
  assumes "pages_located d0" and "m_selected d0 = []" and "\<forall>k. \<not> is_currently_selected d0 k"
  shows "\<exists>d. calls cs d0 = Inr d \<and>
           distinct (map fst (m_selected d)) \<and>
           (\<forall>n. (\<exists>f. is_currently_selected d (n, f)) = (n \<in> fst ` set (m_selected d))) \<and>
           (\<forall>n f. is_currently_selected d (n, f)
              = (\<exists>t. (n, t) \<in> set (m_selected d) \<and> fileId (getVersion t) = f))"
proof -
  have "selected_version_invariant d0"
    using assms(2,3) by (rule invariant_fresh)
  with assms(1) obtain d where d: "calls cs d0 = Inr d" "selected_version_invariant d"
    using calls_located by blast
  have "\<forall>n. (\<exists>f. is_currently_selected d (n, f)) = (n \<in> fst ` set (m_selected d))"
    using d(2) by (simp add: invariant_package_flag)
  with d show ?thesis
    by (simp add: selected_version_invariant_def)
qed

theorem selection_calls_keep_one_entry_and_flag_witness:
  "\<exists>d. calls
         [AddSelection \<lparr>addonId = ''AANobbMI'', provider = MODRINTH, name = ''Sodium''\<rparr>
            \<lparr>fileId = ''v1'', fileName = ''sodium-1.jar'', custom_target_folder = [],
              required_by = []\<rparr> True,
          AddSelection \<lparr>addonId = ''AANobbMI'', provider = MODRINTH, name = ''Sodium''\<rparr>
            \<lparr>fileId = ''v2'', fileName = ''sodium-2.jar'', custom_target_folder = [],
              required_by = []\<rparr> True,
          AddSelection \<lparr>addonId = ''455508'', provider = FLAME, name = ''Iris''\<rparr>
            \<lparr>fileId = ''w1'', fileName = ''iris-1.jar'', custom_target_folder = [],
              required_by = []\<rparr> True,
          RemoveSelection \<lparr>addonId = ''455508'', provider = FLAME, name = ''Iris''\<rparr>
            \<lparr>fileId = ''w1'', fileName = ''iris-1.jar'', custom_target_folder = [],
              required_by = []\<rparr>]
         (new_dialog ModDownloadDialog (Some ModFolderModel) True) = Inr d \<and>
       distinct (map fst (m_selected d)) \<and>
       (\<forall>n. (\<exists>f. is_currently_selected d (n, f)) = (n \<in> fst ` set (m_selected d))) \<and>
       (\<forall>n f. is_currently_selected d (n, f)
          = (\<exists>t. (n, t) \<in> set (m_selected d) \<and> fileId (getVersion t) = f))"
  by (rule selection_calls_keep_one_entry_and_flag)
    (simp_all add: pages_located_def new_dialog_def getPage_def)

text \<open>
  C2. When both provider pages are located and the hash holds an entry for the package
  \<open>P\<close>, \<^verbatim>\<open>addResource\<close> with another version \<open>V_new\<close> of \<open>P\<close> replaces that entry:
  afterwards the only entry under the name of \<open>P\<close> is the new one, the flag of the old
  entry's version is false and the flag of \<open>V_new\<close> is true.
\<close>

theorem addResource_replaces_selected_version:
  assumes "pages_located d"
    and "map_of (m_selected d) (name P) = Some old"
    and "fileId V_new \<noteq> fileId (getVersion old)"
  shows "\<exists>d'. addResource P V_new b d = Inr d' \<and>
           filter (\<lambda>e. fst e = name P) (m_selected d')
             = [(name P, \<lparr> m_pack = P, m_pack_version = V_new,
                             m_pack_model = m_base_model d, m_is_indexed = b \<rparr>)] \<and>
           map_of (m_selected d') (name P)
             = Some \<lparr> m_pack = P, m_pack_version = V_new,
                      m_pack_model = m_base_model d, m_is_indexed = b \<rparr> \<and>
           \<not> is_currently_selected d' (name P, fileId (getVersion old)) \<and>
           is_currently_selected d' (name P, fileId V_new)"
proof -
  have none: "filter (\<lambda>e. fst e = k) (AList.delete k al) = []"
    for k and al :: "(string \<times> ResourceDownloadTask) list"
    by (induction al) auto
  have absent: "map_of (AList.delete k al) k = None"
    for k and al :: "(string \<times> ResourceDownloadTask) list"
    by (simp add: delete_conv')
  show ?thesis
    using assms(1,3)
    by (simp add: addResource_located none absent map_add_def removeResourceFromPage_def)
qed

theorem addResource_replaces_selected_version_witness:
  "\<exists>d1 d2.
      addResource \<lparr>addonId = ''AANobbMI'', provider = MODRINTH, name = ''Sodium''\<rparr>
        \<lparr>fileId = ''v1'', fileName = ''sodium-1.jar'', custom_target_folder = [],
          required_by = []\<rparr> True
        (new_dialog ModDownloadDialog (Some ModFolderModel) True) = Inr d1 \<and>
      is_currently_selected d1 (''Sodium'', ''v1'') \<and>
      addResource \<lparr>addonId = ''AANobbMI'', provider = MODRINTH, name = ''Sodium''\<rparr>
        \<lparr>fileId = ''v2'', fileName = ''sodium-2.jar'', custom_target_folder = [],
          required_by = []\<rparr> False d1 = Inr d2 \<and>
      map_of (m_selected d2) ''Sodium''
        = Some \<lparr> m_pack = \<lparr>addonId = ''AANobbMI'', provider = MODRINTH, name = ''Sodium''\<rparr>,
                 m_pack_version = \<lparr>fileId = ''v2'', fileName = ''sodium-2.jar'',
                   custom_target_folder = [], required_by = []\<rparr>,
                 m_pack_model = Some ModFolderModel, m_is_indexed = False \<rparr> \<and>
      \<not> is_currently_selected d2 (''Sodium'', ''v1'') \<and>
      is_currently_selected d2 (''Sodium'', ''v2'')"
proof -
  let ?P = "\<lparr>addonId = ''AANobbMI'', provider = MODRINTH, name = ''Sodium''\<rparr>"
  let ?v1 = "\<lparr>fileId = ''v1'', fileName = ''sodium-1.jar'', custom_target_folder = [],
          required_by = []\<rparr>"
  let ?v2 = "\<lparr>fileId = ''v2'', fileName = ''sodium-2.jar'', custom_target_folder = [],
          required_by = []\<rparr>"
  let ?d0 = "new_dialog ModDownloadDialog (Some ModFolderModel) True"
  let ?old = "\<lparr> m_pack = ?P, m_pack_version = ?v1, m_pack_model = Some ModFolderModel,
                 m_is_indexed = True \<rparr>"
  have loc0: "pages_located ?d0"
    by (simp add: pages_located_new_dialog)
  obtain d1 where d1: "addResource ?P ?v1 True ?d0 = Inr d1"
    using loc0 by (simp add: addResource_located)
  have loc1: "pages_located d1"
    using loc0 d1 by (rule pages_located_addResource)
  have sel1: "map_of (m_selected d1) (name ?P) = Some ?old"
    using d1 loc0 by (auto simp: addResource_located new_dialog_def)
  have flag1: "is_currently_selected d1 (''Sodium'', ''v1'')"
    using d1 loc0 by (auto simp: addResource_located)
  have base1: "m_base_model d1 = Some ModFolderModel"
    using d1 loc0 by (auto simp: addResource_located new_dialog_def)
  have "fileId ?v2 \<noteq> fileId (getVersion ?old)"
    by (simp add: getVersion_def)
  from addResource_replaces_selected_version [OF loc1 sel1 this, of False]
  obtain d2 where "addResource ?P ?v2 False d1 = Inr d2"
    "map_of (m_selected d2) ''Sodium'' = Some \<lparr> m_pack = ?P, m_pack_version = ?v2,
        m_pack_model = Some ModFolderModel, m_is_indexed = False \<rparr>"
    "\<not> is_currently_selected d2 (''Sodium'', ''v1'')"
    "is_currently_selected d2 (''Sodium'', ''v2'')"
    by (auto simp: base1 getVersion_def)
  with d1 flag1 show ?thesis by blast
qed

text \<open>
  C9. The specification asks that a removal which cannot locate a provider page be
  logged and leave the dialog as it is. \<^verbatim>\<open>removeResource\<close> uses the result of both
  page lookups unchecked. The shader pack dialog creates the Modrinth page only, so
  there the lookup of the Flame page is null and every removal ends in a null pointer
  dereference instead of returning the dialog unchanged.
\<close>

theorem removeResource_shader_dialog_faults:
  "removeResource pack ver (new_dialog ShaderPackDownloadDialog base_model supportsFlame)
     = Inl NullPointerDereference"
  by (simp add: removeResource_def page_removeResource_def new_dialog_def getPage_def
      split: sum.splits)

section \<open>Properties of the required-by names\<close>

lemma getReqiredBy_inner_acc:
  "getReqiredBy_inner sel r keys req = req @ getReqiredBy_inner sel r keys []"
  by (induction keys) (auto simp: Let_def split: option.splits)

lemma getReqiredBy_outer_concat:
  "getReqiredBy_outer sel keys req_by req
     = req @ concat (map (\<lambda>r. getReqiredBy_inner sel r keys []) req_by)"
proof (induction req_by arbitrary: req)
  case Nil
  then show ?case by simp
next
  case (Cons r req_by)
  show ?case
    by (simp add: Cons.IH) (rule getReqiredBy_inner_acc)
qed

lemma getReqiredBy_inner_find:
  assumes "\<forall>e \<in> set es. map_of sel (fst e) = Some (snd e)"
  shows "getReqiredBy_inner sel r (map fst es) []
     = (case find (\<lambda>e. addonId (getPack (snd e)) = r) es of
          None \<Rightarrow> []
        | Some e \<Rightarrow> [name (getPack (snd e))])"
  using assms by (induction es) (auto simp: Let_def)

lemma getReqiredBy_requiredByNames:
  assumes "distinct (map fst (m_selected d))"
  shows "getReqiredBy d ids = requiredByNames (m_selected d) ids"
proof -
  have "\<forall>e \<in> set (m_selected d). map_of (m_selected d) (fst e) = Some (snd e)"
    using assms by auto
  then show ?thesis
    by (simp add: getReqiredBy_def requiredByNames_def getReqiredBy_outer_concat
        getReqiredBy_inner_find)
qed

lemma requiredByNames_sound:
  assumes "n \<in> set (requiredByNames es ids)"
  shows "\<exists>e \<in> set es. name (getPack (snd e)) = n \<and> addonId (getPack (snd e)) \<in> set ids"
proof -
  let ?hit = "\<lambda>r. find (\<lambda>e. addonId (getPack (snd e)) = r) es"
  from assms obtain r where r: "r \<in> set ids"
    and n: "n \<in> set (case ?hit r of None \<Rightarrow> [] | Some e \<Rightarrow> [name (getPack (snd e))])"
    by (auto simp: requiredByNames_def)
  from n obtain e where e: "?hit r = Some e" "n = name (getPack (snd e))"
    by (cases "?hit r") simp_all
  from e(1) have "e \<in> set es" "addonId (getPack (snd e)) = r"
    by (auto simp: find_Some_iff)
  with r e(2) show ?thesis by blast
qed

lemma requiredByNames_length: "length (requiredByNames es ids) \<le> length ids"
  by (induction ids) (auto simp: requiredByNames_def split: option.splits)

lemma requiredByNames_append:
  "requiredByNames es (ids @ ids') = requiredByNames es ids @ requiredByNames es ids'"
  by (simp add: requiredByNames_def)

lemma find_hit:
  "x \<in> set xs \<Longrightarrow> P x \<Longrightarrow> \<exists>y. find P xs = Some y \<and> y \<in> set xs \<and> P y"
  by (induction xs) auto

lemma requiredByNames_own:
  assumes "e \<in> set es"
    and "\<forall>e' \<in> set es. addonId (getPack (snd e')) = addonId (getPack (snd e))
           \<longrightarrow> name (getPack (snd e')) = name (getPack (snd e))"
  shows "requiredByNames es [addonId (getPack (snd e))] = [name (getPack (snd e))]"
proof -
  let ?P = "\<lambda>x. addonId (getPack (snd x)) = addonId (getPack (snd e))"
  obtain e' where e': "find ?P es = Some e'" and "e' \<in> set es" "?P e'"
    using find_hit [of e es ?P] assms(1) by blast
  with assms(2) have "name (getPack (snd e')) = name (getPack (snd e))"
    by blast
  with e' show ?thesis
    by (simp add: requiredByNames_def)
qed

lemma requiredByNames_count:
  assumes "requiredByNames es [r] = [n]"
  shows "count_list ids r \<le> count_list (requiredByNames es ids) n"
proof (induction ids)
  case Nil
  then show ?case by simp
next
  case (Cons i ids)
  have split: "requiredByNames es (j # ids) = requiredByNames es [j] @ requiredByNames es ids"
    for j
    using requiredByNames_append [of es "[j]" ids] by simp
  show ?case
  proof (cases "i = r")
    case True
    with assms Cons.IH show ?thesis by (simp add: split)
  next
    case False
    with Cons.IH show ?thesis by (simp add: split)
  qed
qed

lemma m_selected_mod_dialog_with [simp]:
  "m_selected (mod_dialog_with es) = es"
  by (simp add: mod_dialog_with_def)

lemma fabric_selected_reachable:
  "addResource Fabric_API Fabric_API_v1 True (new_dialog ModDownloadDialog (Some ModFolderModel) True)
     = Inr fabric_selected"
proof -
  let ?d0 = "new_dialog ModDownloadDialog (Some ModFolderModel) True"
  have "pages_located ?d0"
    by (simp add: pages_located_new_dialog)
  then have "addResource Fabric_API Fabric_API_v1 True ?d0 =
     Inr (?d0\<lparr>is_currently_selected :=
              (removeResourceFromPage (name Fabric_API) (is_currently_selected ?d0))
                ((name Fabric_API, fileId Fabric_API_v1) := True),
            m_selected := AList.delete (name Fabric_API) (m_selected ?d0)
               @ [(name Fabric_API, \<lparr> m_pack = Fabric_API, m_pack_version = Fabric_API_v1,
                      m_pack_model = m_base_model ?d0, m_is_indexed = True \<rparr>)],
            ok_enabled := True\<rparr>)"
    by (rule addResource_located)
  also have "\<dots> = Inr fabric_selected"
    by (simp add: fabric_selected_def mod_dialog_with_def mod_task_def new_dialog_def
        removeResourceFromPage_def fun_eq_iff Fabric_API_def Fabric_API_v1_def getVersion_def)
  finally show ?thesis .
qed

text \<open>
  C7, as the code has it. For every list of ids and every hash (its keys are distinct),
  \<^verbatim>\<open>getReqiredBy\<close> returns what the specification's \<open>requiredByNames\<close> describes: for
  each requested id, in order, the name of the first selected entry whose pack has that
  id, and nothing for an id that no entry has. So it returns at most one name per
  requested id, and every name it returns is the name of a selected entry whose own id
  was requested. In the scenario, where ``Cloth Config'' was added because ``Fabric
  API'' required it, the answer ``Fabric API'' is the one for the addon id of ``Fabric
  API'' itself, which is the id in the required-by list of the version of ``Cloth
  Config''; that instance follows the theorem.
\<close>

theorem getReqiredBy_first_selected_match:
  assumes "distinct (map fst (m_selected d))"
  shows "getReqiredBy d ids = requiredByNames (m_selected d) ids \<and>
         length (getReqiredBy d ids) \<le> length ids \<and>
         (\<forall>n \<in> set (getReqiredBy d ids).
             \<exists>e \<in> set (m_selected d).
               name (getPack (snd e)) = n \<and> addonId (getPack (snd e)) \<in> set ids)"
  using assms
  by (simp add: getReqiredBy_requiredByNames requiredByNames_length requiredByNames_sound)

theorem getReqiredBy_first_selected_match_witness:
  "distinct (map fst (m_selected
      (mod_dialog_with [(''Fabric API'', mod_task Fabric_API Fabric_API_v1 True),
                        (''Cloth Config'', mod_task Cloth_Config Cloth_Config_v2 True)]))) \<and>
   required_by Cloth_Config_v2 = [addonId Fabric_API] \<and>
   getReqiredBy
      (mod_dialog_with [(''Fabric API'', mod_task Fabric_API Fabric_API_v1 True),
                        (''Cloth Config'', mod_task Cloth_Config Cloth_Config_v2 True)])
      [addonId Fabric_API] = [''Fabric API'']"
proof -
  let ?d = "mod_dialog_with [(''Fabric API'', mod_task Fabric_API Fabric_API_v1 True),
                             (''Cloth Config'', mod_task Cloth_Config Cloth_Config_v2 True)]"
  have dist: "distinct (map fst (m_selected ?d))"
    by simp
  have "requiredByNames (m_selected ?d) [addonId Fabric_API] = [''Fabric API'']"
    by (simp add: requiredByNames_def mod_task_def getPack_def Fabric_API_def Cloth_Config_def)
  with getReqiredBy_first_selected_match [OF dist, of "[addonId Fabric_API]"] dist
  show ?thesis
    by (simp add: Cloth_Config_v2_def Fabric_API_def)
qed

text \<open>
  C10. \<^verbatim>\<open>getReqiredBy\<close> neither leaves out the entry that asks nor removes duplicates.
  Let an entry be selected whose addon id identifies it among the entries (entries with
  that id carry its name). If its own id is among its version's required-by ids, its own
  name is among the names returned for them; and for any list of ids, its name is
  returned at least as often as its id occurs in the list.
\<close>

theorem getReqiredBy_keeps_own_name_and_duplicates:
  assumes "distinct (map fst (m_selected d))"
    and "e \<in> set (m_selected d)"
    and "\<forall>e' \<in> set (m_selected d).
           addonId (getPack (snd e')) = addonId (getPack (snd e))
             \<longrightarrow> name (getPack (snd e')) = name (getPack (snd e))"
  shows "(addonId (getPack (snd e)) \<in> set (required_by (getVersion (snd e)))
            \<longrightarrow> name (getPack (snd e))
                  \<in> set (getReqiredBy d (required_by (getVersion (snd e))))) \<and>
         count_list ids (addonId (getPack (snd e)))
            \<le> count_list (getReqiredBy d ids) (name (getPack (snd e)))"
proof -
  have own: "requiredByNames (m_selected d) [addonId (getPack (snd e))] = [name (getPack (snd e))]"
    using assms(2,3) by (rule requiredByNames_own)
  have count: "count_list xs (addonId (getPack (snd e)))
      \<le> count_list (getReqiredBy d xs) (name (getPack (snd e)))" for xs
    using requiredByNames_count [OF own] assms(1) by (simp add: getReqiredBy_requiredByNames)
  have "name (getPack (snd e)) \<in> set (getReqiredBy d xs)"
    if "addonId (getPack (snd e)) \<in> set xs" for xs
  proof -
    from that have "count_list xs (addonId (getPack (snd e))) \<noteq> 0"
      by (simp add: count_list_0_iff)
    with count [of xs] have "count_list (getReqiredBy d xs) (name (getPack (snd e))) \<noteq> 0"
      by linarith
    then show ?thesis
      by (simp add: count_list_0_iff)
  qed
  with count show ?thesis by blast
qed

theorem getReqiredBy_keeps_own_name_and_duplicates_witness:
  "getReqiredBy
     (mod_dialog_with
        [(''Fabric API'',
          mod_task Fabric_API (Fabric_API_v1\<lparr>required_by := [''P7dR8mSH'', ''P7dR8mSH'']\<rparr>) True)])
     [''P7dR8mSH'', ''P7dR8mSH''] = [''Fabric API'', ''Fabric API'']"
proof -
  let ?t = "mod_task Fabric_API (Fabric_API_v1\<lparr>required_by := [''P7dR8mSH'', ''P7dR8mSH'']\<rparr>) True"
  let ?d = "mod_dialog_with [(''Fabric API'', ?t)]"
  have own: "name (getPack ?t) = ''Fabric API''" "addonId (getPack ?t) = ''P7dR8mSH''"
    by (simp_all add: mod_task_def getPack_def Fabric_API_def)
  have "2 \<le> count_list (getReqiredBy ?d [''P7dR8mSH'', ''P7dR8mSH'']) ''Fabric API''"
    using getReqiredBy_keeps_own_name_and_duplicates
      [of ?d "(''Fabric API'', ?t)" "[''P7dR8mSH'', ''P7dR8mSH'']"]
    by (simp add: own)
  moreover have "length (getReqiredBy ?d [''P7dR8mSH'', ''P7dR8mSH'']) \<le> 2"
    using getReqiredBy_requiredByNames [of ?d "[''P7dR8mSH'', ''P7dR8mSH'']"]
      requiredByNames_length [of "m_selected ?d" "[''P7dR8mSH'', ''P7dR8mSH'']"]
    by simp
  ultimately show ?thesis
    by (simp add: getReqiredBy_def own Let_def)
qed

section \<open>Properties of the confirmation\<close>

subsection \<open>Merging dependencies, building the rows, removing deselected names\<close>

lemma find_snoc:
  "find P (xs @ [x]) = (case find P xs of None \<Rightarrow> (if P x then Some x else None) | Some y \<Rightarrow> Some y)"
  by (induction xs) auto

lemma map_of_addResource:
  assumes "pages_located d" and "addResource pack ver b d = Inr d'"
  shows "map_of (m_selected d') n =
           (if n = name pack
            then Some \<lparr> m_pack = pack, m_pack_version = ver,
                        m_pack_model = m_base_model d, m_is_indexed = b \<rparr>
            else map_of (m_selected d) n)"
  using assms
  by (auto simp: addResource_located delete_conv' map_add_def split: option.splits)

lemma unchanged_addResource:
  assumes "pages_located d" and "addResource pack ver b d = Inr d'"
  shows "m_base_model d' = m_base_model d \<and> dialog_class d' = dialog_class d"
  using assms by (auto simp: addResource_located)

lemma distinct_addResource:
  assumes "pages_located d" and "addResource pack ver b d = Inr d'"
    and "distinct (map fst (m_selected d))"
  shows "distinct (map fst (m_selected d'))"
proof -
  have "name pack \<notin> fst ` set (AList.delete (name pack) (m_selected d))"
    by (auto simp: in_set_delete_iff)
  with assms show ?thesis
    by (auto simp: addResource_located distinct_delete)
qed

lemma addDependencies_located:
  assumes "pages_located d"
  shows "\<exists>d'. addDependencies deps d = Inr d' \<and> pages_located d' \<and>
           m_base_model d' = m_base_model d \<and>
           (distinct (map fst (m_selected d)) \<longrightarrow> distinct (map fst (m_selected d'))) \<and>
           (\<forall>n. map_of (m_selected d') n =
              (case find (\<lambda>dep. name (dep_pack dep) = n) (rev deps) of
                 None \<Rightarrow> map_of (m_selected d) n
               | Some dep \<Rightarrow>
                   Some \<lparr> m_pack = dep_pack dep, m_pack_version = dep_version dep,
                          m_pack_model = m_base_model d, m_is_indexed = True \<rparr>))"
  using assms
proof (induction deps arbitrary: d)
  case Nil
  then show ?case by simp
next
  case (Cons dep deps)
  obtain d1 where d1: "addResource (dep_pack dep) (dep_version dep) True d = Inr d1"
    using Cons.prems by (simp add: addResource_located)
  have loc1: "pages_located d1"
    using Cons.prems d1 by (rule pages_located_addResource)
  have base1: "m_base_model d1 = m_base_model d"
    using unchanged_addResource [OF Cons.prems d1] by simp
  from Cons.IH [OF loc1] obtain d' where d':
    "addDependencies deps d1 = Inr d'" "pages_located d'" "m_base_model d' = m_base_model d1"
    "distinct (map fst (m_selected d1)) \<longrightarrow> distinct (map fst (m_selected d'))"
    "\<forall>n. map_of (m_selected d') n =
        (case find (\<lambda>dep. name (dep_pack dep) = n) (rev deps) of
           None \<Rightarrow> map_of (m_selected d1) n
         | Some dep \<Rightarrow>
             Some \<lparr> m_pack = dep_pack dep, m_pack_version = dep_version dep,
                    m_pack_model = m_base_model d1, m_is_indexed = True \<rparr>)"
    by blast
  have "addDependencies (dep # deps) d = Inr d'"
    using d1 d'(1) by simp
  moreover have "distinct (map fst (m_selected d)) \<longrightarrow> distinct (map fst (m_selected d'))"
    using d'(4) distinct_addResource [OF Cons.prems d1] by blast
  moreover have "map_of (m_selected d') n =
        (case find (\<lambda>dep. name (dep_pack dep) = n) (rev (dep # deps)) of
           None \<Rightarrow> map_of (m_selected d) n
         | Some dep \<Rightarrow>
             Some \<lparr> m_pack = dep_pack dep, m_pack_version = dep_version dep,
                    m_pack_model = m_base_model d, m_is_indexed = True \<rparr>)" for n
    using d'(5) map_of_addResource [OF Cons.prems d1, of n]
    by (simp add: find_snoc base1 split: option.splits)
  ultimately show ?case
    using d'(2,3) base1 by simp
qed

lemma fold_delete_filter:
  "fold AList.delete ks al = filter (\<lambda>e. fst e \<notin> set ks) al"
proof (induction ks arbitrary: al)
  case Nil
  then show ?case by simp
next
  case (Cons k ks)
  have "AList.delete k al = filter (\<lambda>e. fst e \<noteq> k) al"
    by (simp add: AList.delete_eq case_prod_unfold eq_commute)
  then show ?case
    by (simp add: Cons.IH)
qed

lemma sort_CaseInsensitive_mset: "mset (sort_CaseInsensitive keys) = mset keys"
  by (simp add: sort_CaseInsensitive_def)

lemma sort_CaseInsensitive_sorted: "sorted (map toCaseFolded (sort_CaseInsensitive keys))"
  by (simp add: sort_CaseInsensitive_def)

lemma appendResource_names:
  assumes "\<forall>k \<in> set ks. k \<in> fst ` set (m_selected d)"
  shows "map info_name (concat (map (appendResource env d) ks)) = ks"
  using assms
proof (induction ks)
  case Nil
  then show ?case by simp
next
  case (Cons k ks)
  then obtain t where "map_of (m_selected d) k = Some t"
    by (cases "map_of (m_selected d) k") (auto simp: map_of_eq_None_iff)
  with Cons show ?case
    by (simp add: appendResource_def)
qed

lemma appendResources_names:
  "map info_name (appendResources env d) = sort_CaseInsensitive (map fst (m_selected d))"
proof -
  have "set (sort_CaseInsensitive (map fst (m_selected d))) = fst ` set (m_selected d)"
    by (simp add: sort_CaseInsensitive_def)
  then show ?thesis
    unfolding appendResources_def by (intro appendResource_names) simp
qed

lemma appendResources_row:
  assumes "row \<in> set (appendResources env d)"
  shows "\<exists>t. map_of (m_selected d) (info_name row) = Some t \<and>
             row = \<lparr> info_name = info_name row,
                     info_filename = getFilename t,
                     info_custom_file_path = getCustomPath t,
                     info_provider = ProviderCaps_name env (getProvider t),
                     info_required_by = getReqiredBy d (required_by (getVersion t)) \<rparr>"
proof -
  from assms obtain k where row: "row \<in> set (appendResource env d k)"
    by (auto simp: appendResources_def)
  then obtain t where "map_of (m_selected d) k = Some t"
    by (cases "map_of (m_selected d) k") (simp_all add: appendResource_def)
  with row show ?thesis
    by (simp add: appendResource_def)
qed

lemma appendResources_entry:
  assumes "distinct (map fst (m_selected d))" and "(k, t) \<in> set (m_selected d)"
  shows "\<lparr> info_name = k,
           info_filename = getFilename t,
           info_custom_file_path = getCustomPath t,
           info_provider = ProviderCaps_name env (getProvider t),
           info_required_by = getReqiredBy d (required_by (getVersion t)) \<rparr>
         \<in> set (appendResources env d)"
proof -
  have "map_of (m_selected d) k = Some t"
    using assms by simp
  moreover have "k \<in> set (sort_CaseInsensitive (map fst (m_selected d)))"
    using assms(2) by (force simp: sort_CaseInsensitive_def)
  ultimately show ?thesis
    by (force simp: appendResources_def appendResource_def)
qed

lemma plan_confirm_review: "plan (confirm_review env shown d) = Some (appendResources env d)"
  by (simp add: confirm_review_def Let_def split: prod.splits)

subsection \<open>The two ways out of the dependency check\<close>

lemma confirm_rejected:
  assumes "getModDependenciesTask d = Some request"
    and "execWithTask (runDependenciesTask env request) = Rejected"
  shows "confirm env d =
     Inr \<lparr> attempt = Attempt_Aborted, boxes = task_boxes (runDependenciesTask env request),
            plan = None, dialog = d\<lparr>reject_queued := True\<rparr> \<rparr>"
  using assms by (simp add: confirm_def Let_def)

lemma confirm_not_rejected:
  assumes "getModDependenciesTask d = Some request"
    and "execWithTask (runDependenciesTask env request) = Accepted"
    and "addDependencies (getDependecies (runDependenciesTask env request)) d = Inr d'"
  shows "confirm env d =
     Inr (confirm_review env (task_boxes (runDependenciesTask env request)) d')"
  using assms by (simp add: confirm_def Let_def)

lemma getModDependenciesTask_mod_dialog_with:
  "getModDependenciesTask (mod_dialog_with es) = Some (selectedVers (mod_dialog_with es))"
  by (simp add: getModDependenciesTask_def mod_dialog_with_def new_dialog_def)

lemma pages_located_mod_dialog_with: "pages_located (mod_dialog_with es)"
  by (simp add: pages_located_def mod_dialog_with_def new_dialog_def getPage_def)




text \<open>
  C4. When the user aborts the dependency check (the task is aborted and the progress
  dialog returns \<open>Rejected\<close>), \<^verbatim>\<open>confirm\<close> ends the attempt: no rows are built, no
  box is shown, and the dialog is what it was, selection and flags included, but for the
  queued rejection.
\<close>

theorem confirm_cancelled_resolution_aborts:
  assumes "getModDependenciesTask d = Some request"
    and "emitted (runDependenciesTask env request) = Task_aborted"
    and "execWithTask (runDependenciesTask env request) = Rejected"
  shows "\<exists>c. confirm env d = Inr c \<and> attempt c = Attempt_Aborted \<and> plan c = None \<and>
             boxes c = [] \<and>
             m_selected (dialog c) = m_selected d \<and>
             is_currently_selected (dialog c) = is_currently_selected d \<and>
             dialog c = d\<lparr>reject_queued := True\<rparr>"
  using assms by (simp add: confirm_rejected task_boxes_def)

theorem confirm_cancelled_resolution_aborts_witness:
  "\<exists>c. confirm (collaborators \<lparr> emitted = Task_aborted, execWithTask = Rejected,
                                 warnings = [], getDependecies = [] \<rparr> (True, []))
                sodium_iris_selected = Inr c \<and>
        attempt c = Attempt_Aborted \<and> plan c = None \<and> boxes c = [] \<and>
        m_selected (dialog c) = m_selected sodium_iris_selected \<and>
        is_currently_selected (dialog c) = is_currently_selected sodium_iris_selected \<and>
        dialog c = sodium_iris_selected\<lparr>reject_queued := True\<rparr>"
proof -
  have "getModDependenciesTask sodium_iris_selected = Some (selectedVers sodium_iris_selected)"
    by (simp add: sodium_iris_selected_def getModDependenciesTask_mod_dialog_with)
  then show ?thesis
    by (rule confirm_cancelled_resolution_aborts) (simp_all add: collaborators_def)
qed


text \<open>
  C5. When the dependency check succeeds in a dialog with both provider pages, every
  dependency it lists is added with \<^verbatim>\<open>addResource(dep->pack, dep->version, true)\<close>, in
  order, and the review runs on the result: a package named by a dependency is mapped to
  the entry of the last dependency with that name, marked \<open>True\<close>, and every other
  package keeps its entry. The scenario of the specification is the instance that
  follows the theorem: ``Fabric API'' selected and ``Cloth Config'' resolved give a
  selection of both and a plan of two rows, ``Cloth Config'' first.
\<close>

theorem confirm_merges_resolved_dependencies:
  assumes "pages_located d"
    and "getModDependenciesTask d = Some request"
    and "emitted (runDependenciesTask env request) = Task_succeeded"
    and "execWithTask (runDependenciesTask env request) = Accepted"
  shows "\<exists>d'. addDependencies (getDependecies (runDependenciesTask env request)) d = Inr d' \<and>
           confirm env d
             = Inr (confirm_review env (task_boxes (runDependenciesTask env request)) d') \<and>
           (\<forall>n. map_of (m_selected d') n =
              (case find (\<lambda>dep. name (dep_pack dep) = n)
                         (rev (getDependecies (runDependenciesTask env request))) of
                 None \<Rightarrow> map_of (m_selected d) n
               | Some dep \<Rightarrow>
                   Some \<lparr> m_pack = dep_pack dep, m_pack_version = dep_version dep,
                          m_pack_model = m_base_model d, m_is_indexed = True \<rparr>))"
proof -
  from addDependencies_located [OF assms(1), of "getDependecies (runDependenciesTask env request)"]
  obtain d' where d':
    "addDependencies (getDependecies (runDependenciesTask env request)) d = Inr d'"
    "\<forall>n. map_of (m_selected d') n =
        (case find (\<lambda>dep. name (dep_pack dep) = n)
                   (rev (getDependecies (runDependenciesTask env request))) of
           None \<Rightarrow> map_of (m_selected d) n
         | Some dep \<Rightarrow>
             Some \<lparr> m_pack = dep_pack dep, m_pack_version = dep_version dep,
                    m_pack_model = m_base_model d, m_is_indexed = True \<rparr>)"
    by blast
  from confirm_not_rejected [OF assms(2,4) d'(1)] d' show ?thesis
    by blast
qed


lemma sort_two_names:
  "sort_CaseInsensitive [''Fabric API'', ''Cloth Config''] = [''Cloth Config'', ''Fabric API'']"
  by (simp add: sort_CaseInsensitive_def toCaseFolded_def toCaseFolded_char_def)

theorem confirm_merges_resolved_dependencies_witness:
  "\<exists>c. confirm (collaborators
                  \<lparr> emitted = Task_succeeded, execWithTask = Accepted, warnings = [],
                    getDependecies = [\<lparr>dep_pack = Cloth_Config, dep_version = Cloth_Config_v2\<rparr>] \<rparr>
                  (True, []))
               fabric_selected = Inr c \<and>
        m_selected (dialog c)
          = [(''Fabric API'', mod_task Fabric_API Fabric_API_v1 True),
             (''Cloth Config'', mod_task Cloth_Config Cloth_Config_v2 True)] \<and>
        plan c
          = Some [\<lparr> info_name = ''Cloth Config'', info_filename = ''cloth-config-2.jar'',
                    info_custom_file_path = [], info_provider = ''Modrinth'',
                    info_required_by = [''Fabric API''] \<rparr>,
                  \<lparr> info_name = ''Fabric API'', info_filename = ''fabric-api-1.jar'',
                    info_custom_file_path = [], info_provider = ''Modrinth'',
                    info_required_by = [] \<rparr>]"
proof -
  let ?run = "\<lparr> emitted = Task_succeeded, execWithTask = Accepted, warnings = [],
                getDependecies = [\<lparr>dep_pack = Cloth_Config, dep_version = Cloth_Config_v2\<rparr>] \<rparr>"
  let ?env = "collaborators ?run (True, [])"
  let ?sel = "[(''Fabric API'', mod_task Fabric_API Fabric_API_v1 True),
               (''Cloth Config'', mod_task Cloth_Config Cloth_Config_v2 True)]"
  have loc: "pages_located fabric_selected"
    by (simp add: fabric_selected_def pages_located_mod_dialog_with)
  have task: "getModDependenciesTask fabric_selected = Some (selectedVers fabric_selected)"
    by (simp add: fabric_selected_def getModDependenciesTask_mod_dialog_with)
  have run: "runDependenciesTask ?env (selectedVers fabric_selected) = ?run"
    by (simp add: collaborators_def)
  from confirm_merges_resolved_dependencies [OF loc task, of ?env]
  obtain d' where d':
    "addDependencies [\<lparr>dep_pack = Cloth_Config, dep_version = Cloth_Config_v2\<rparr>] fabric_selected
       = Inr d'"
    "confirm ?env fabric_selected = Inr (confirm_review ?env (task_boxes ?run) d')"
    unfolding run by auto
  have sel: "m_selected d' = ?sel"
    using d'(1) loc
    by (auto simp: addResource_located fabric_selected_def AList.delete_eq mod_task_def
        Cloth_Config_def new_dialog_def mod_dialog_with_def)
  have req: "getReqiredBy d' [''P7dR8mSH''] = [''Fabric API'']"
    by (simp add: getReqiredBy_def sel mod_task_def getPack_def Fabric_API_def)
  have req0: "getReqiredBy d' [] = []"
    by (simp add: getReqiredBy_def)
  have rows: "appendResources ?env d'
      = [\<lparr> info_name = ''Cloth Config'', info_filename = ''cloth-config-2.jar'',
           info_custom_file_path = [], info_provider = ''Modrinth'',
           info_required_by = [''Fabric API''] \<rparr>,
         \<lparr> info_name = ''Fabric API'', info_filename = ''fabric-api-1.jar'',
           info_custom_file_path = [], info_provider = ''Modrinth'',
           info_required_by = [] \<rparr>]"
    by (simp add: appendResources_def sel sort_two_names appendResource_def mod_task_def
        getFilename_def getCustomPath_def getProvider_def getVersion_def
        Fabric_API_def Fabric_API_v1_def Cloth_Config_def Cloth_Config_v2_def
        collaborators_def provider_names_def req req0)
  have "m_selected (dialog (confirm_review ?env (task_boxes ?run) d')) = ?sel"
    by (simp add: confirm_review_def collaborators_def accept_def sel)
  moreover have "plan (confirm_review ?env (task_boxes ?run) d') = Some (appendResources ?env d')"
    by (rule plan_confirm_review)
  ultimately show ?thesis
    using d'(2) by (simp only: rows) simp
qed


subsection \<open>The plan and the review\<close>

text \<open>
  C6. The rows \<^verbatim>\<open>confirm\<close> gives to the review dialog, for every hash (its keys are
  distinct): their names are the keys sorted case-insensitively, so there is one row per
  entry and the rows ascend by case-folded name; every row is the row of an entry (its
  name, the file name, the custom path, the display name of the provider and the
  required-by names of its version), and every entry has its row.
\<close>

theorem confirm_plan_one_sorted_row_per_entry:
  assumes "distinct (map fst (m_selected d))"
  shows "\<exists>rows. plan (confirm_review env shown d) = Some rows \<and>
           map info_name rows = sort_CaseInsensitive (map fst (m_selected d)) \<and>
           mset (map info_name rows) = mset (map fst (m_selected d)) \<and>
           length rows = length (m_selected d) \<and>
           sorted (map (\<lambda>row. toCaseFolded (info_name row)) rows) \<and>
           (\<forall>row \<in> set rows.
              \<exists>t. (info_name row, t) \<in> set (m_selected d) \<and>
                  row = \<lparr> info_name = info_name row,
                          info_filename = getFilename t,
                          info_custom_file_path = getCustomPath t,
                          info_provider = ProviderCaps_name env (getProvider t),
                          info_required_by = getReqiredBy d (required_by (getVersion t)) \<rparr>) \<and>
           (\<forall>e \<in> set (m_selected d).
              \<lparr> info_name = fst e,
                info_filename = getFilename (snd e),
                info_custom_file_path = getCustomPath (snd e),
                info_provider = ProviderCaps_name env (getProvider (snd e)),
                info_required_by = getReqiredBy d (required_by (getVersion (snd e))) \<rparr>
              \<in> set rows)"
proof -
  let ?rows = "appendResources env d"
  have names: "map info_name ?rows = sort_CaseInsensitive (map fst (m_selected d))"
    by (rule appendResources_names)
  have count: "mset (map info_name ?rows) = mset (map fst (m_selected d))"
    by (simp add: names sort_CaseInsensitive_mset)
  have len: "length ?rows = length (m_selected d)"
    using arg_cong [OF names, of length] by (simp add: sort_CaseInsensitive_def)
  have "sorted (map toCaseFolded (map info_name ?rows))"
    by (simp only: names sort_CaseInsensitive_sorted)
  then have ordered: "sorted (map (\<lambda>row. toCaseFolded (info_name row)) ?rows)"
    by (simp add: comp_def)
  have row: "\<exists>t. (info_name row, t) \<in> set (m_selected d) \<and>
                  row = \<lparr> info_name = info_name row,
                          info_filename = getFilename t,
                          info_custom_file_path = getCustomPath t,
                          info_provider = ProviderCaps_name env (getProvider t),
                          info_required_by = getReqiredBy d (required_by (getVersion t)) \<rparr>"
    if "row \<in> set ?rows" for row
    using appendResources_row [OF that] by (blast dest: map_of_SomeD)
  have entry: "\<lparr> info_name = fst e,
                info_filename = getFilename (snd e),
                info_custom_file_path = getCustomPath (snd e),
                info_provider = ProviderCaps_name env (getProvider (snd e)),
                info_required_by = getReqiredBy d (required_by (getVersion (snd e))) \<rparr>
              \<in> set ?rows" if "e \<in> set (m_selected d)" for e
    using appendResources_entry [OF assms, of "fst e" "snd e" env] that by simp
  show ?thesis
    using plan_confirm_review [of env shown d] names count len ordered row entry by blast
qed

theorem confirm_plan_one_sorted_row_per_entry_witness:
  "distinct (map fst (m_selected
      (mod_dialog_with [(''Fabric API'', mod_task Fabric_API Fabric_API_v1 True),
                        (''Cloth Config'', mod_task Cloth_Config Cloth_Config_v2 True)]))) \<and>
   (\<exists>rows. plan (confirm_review (collaborators no_dependencies (False, [])) []
                   (mod_dialog_with [(''Fabric API'', mod_task Fabric_API Fabric_API_v1 True),
                                     (''Cloth Config'', mod_task Cloth_Config Cloth_Config_v2 True)]))
              = Some rows \<and>
            map info_name rows = [''Cloth Config'', ''Fabric API''] \<and>
            length rows = 2 \<and>
            sorted (map (\<lambda>row. toCaseFolded (info_name row)) rows))"
proof -
  let ?d = "mod_dialog_with [(''Fabric API'', mod_task Fabric_API Fabric_API_v1 True),
                             (''Cloth Config'', mod_task Cloth_Config Cloth_Config_v2 True)]"
  have dist: "distinct (map fst (m_selected ?d))"
    by simp
  from confirm_plan_one_sorted_row_per_entry [OF dist, of "collaborators no_dependencies (False, [])" "[]"]
  obtain rows where
    "plan (confirm_review (collaborators no_dependencies (False, [])) [] ?d) = Some rows"
    "map info_name rows = sort_CaseInsensitive (map fst (m_selected ?d))"
    "length rows = length (m_selected ?d)"
    "sorted (map (\<lambda>row. toCaseFolded (info_name row)) rows)"
    by blast
  then show ?thesis
    using dist by (simp add: sort_two_names)
qed

text \<open>
  C8, as the code has it. When the review is accepted, the entries with a deselected
  name, and no others, are deleted from the hash, by \<^verbatim>\<open>m_selected.remove(name)\<close>; the
  other entries stay as they were and in their order. No selected flag changes, that of
  a deleted entry's version included, and the Ok button is left alone; the dialog is
  accepted.
\<close>

theorem confirm_review_deletes_deselected_names:
  assumes "reviewExec env (appendResources env d) = (True, deselected)"
  shows "attempt (confirm_review env shown d) = Attempt_Accepted \<and>
         plan (confirm_review env shown d) = Some (appendResources env d) \<and>
         m_selected (dialog (confirm_review env shown d))
           = filter (\<lambda>e. fst e \<notin> set deselected) (m_selected d) \<and>
         is_currently_selected (dialog (confirm_review env shown d)) = is_currently_selected d \<and>
         ok_enabled (dialog (confirm_review env shown d)) = ok_enabled d \<and>
         dialog_result (dialog (confirm_review env shown d)) = Some Accepted"
  using assms by (simp add: confirm_review_def accept_def fold_delete_filter)

lemma sodium_iris_selected_reachable:
  "calls [AddSelection Sodium Sodium_v1 True, AddSelection Iris Iris_v1 True]
     (new_dialog ModDownloadDialog (Some ModFolderModel) True) = Inr sodium_iris_selected"
proof -
  let ?d0 = "new_dialog ModDownloadDialog (Some ModFolderModel) True"
  have loc0: "pages_located ?d0"
    by (simp add: pages_located_new_dialog)
  obtain d1 where d1: "addResource Sodium Sodium_v1 True ?d0 = Inr d1"
    using loc0 by (simp add: addResource_located)
  have loc1: "pages_located d1"
    using loc0 d1 by (rule pages_located_addResource)
  have "addResource Iris Iris_v1 True d1 = Inr sodium_iris_selected"
    using d1
    unfolding addResource_located [OF loc0] addResource_located [OF loc1]
    by (auto simp: sodium_iris_selected_def mod_dialog_with_def mod_task_def new_dialog_def
        removeResourceFromPage_def fun_eq_iff Sodium_def Sodium_v1_def Iris_def Iris_v1_def
        getVersion_def AList.delete_eq)
  with d1 show ?thesis by simp
qed

theorem confirm_review_deletes_deselected_names_witness:
  "m_selected (dialog (confirm_review (collaborators no_dependencies (True, [''Iris''])) []
                          sodium_iris_selected))
     = [(''Sodium'', mod_task Sodium Sodium_v1 True)] \<and>
   is_currently_selected (dialog (confirm_review (collaborators no_dependencies (True, [''Iris''])) []
                          sodium_iris_selected)) (''Sodium'', ''s1'')"
proof -
  have "reviewExec (collaborators no_dependencies (True, [''Iris'']))
          (appendResources (collaborators no_dependencies (True, [''Iris''])) sodium_iris_selected)
        = (True, [''Iris''])"
    by (simp add: collaborators_def)
  from confirm_review_deletes_deselected_names [OF this, of "[]"] show ?thesis
    by (simp add: sodium_iris_selected_def mod_dialog_with_def mod_task_def getVersion_def
        Sodium_v1_def)
qed

text \<open>
  C8, as the specification states it, has the deselected entries removed by the
  selection's own remove operation, which clears the flag of the version. After
  ``Sodium'' and ``Iris'' are added and ``Iris'' is deselected in an accepted review,
  ``Iris'' has no entry and its version is still flagged.
\<close>

theorem deselected_version_stays_flagged_counterexample:
  "calls [AddSelection Sodium Sodium_v1 True, AddSelection Iris Iris_v1 True]
     (new_dialog ModDownloadDialog (Some ModFolderModel) True) = Inr sodium_iris_selected \<and>
   (\<exists>c. confirm (collaborators \<lparr> emitted = Task_succeeded, execWithTask = Accepted,
                                  warnings = [], getDependecies = [] \<rparr> (True, [''Iris'']))
                 sodium_iris_selected = Inr c \<and>
        attempt c = Attempt_Accepted \<and>
        map_of (m_selected (dialog c)) ''Iris'' = None \<and>
        is_currently_selected (dialog c) (''Iris'', ''i1''))"
proof -
  let ?env = "collaborators \<lparr> emitted = Task_succeeded, execWithTask = Accepted,
                               warnings = [], getDependecies = [] \<rparr> (True, [''Iris''])"
  have task: "getModDependenciesTask sodium_iris_selected = Some (selectedVers sodium_iris_selected)"
    by (simp add: sodium_iris_selected_def getModDependenciesTask_mod_dialog_with)
  have "confirm ?env sodium_iris_selected
      = Inr (confirm_review ?env [] sodium_iris_selected)"
    by (simp add: confirm_def task Let_def collaborators_def task_boxes_def)
  moreover have "attempt (confirm_review ?env [] sodium_iris_selected) = Attempt_Accepted"
    by (simp add: confirm_review_def collaborators_def)
  moreover have "m_selected (dialog (confirm_review ?env [] sodium_iris_selected))
      = [(''Sodium'', mod_task Sodium Sodium_v1 True)]"
    by (simp add: confirm_review_def collaborators_def accept_def fold_delete_filter
        sodium_iris_selected_def)
  moreover have "is_currently_selected (dialog (confirm_review ?env [] sodium_iris_selected))
      (''Iris'', ''i1'')"
    by (simp add: confirm_review_def collaborators_def accept_def sodium_iris_selected_def
        mod_dialog_with_def mod_task_def getVersion_def Iris_v1_def)
  ultimately show ?thesis
    using sodium_iris_selected_reachable by simp
qed

subsection \<open>The required-by names after a merge\<close>

text \<open>
  C7, as the specification states it, asks for the id \<open>X\<close> that ``Fabric API''
  required and expects the answer ``Fabric API''. The addon that ``Fabric API'' required
  is ``Cloth Config''. After ``Fabric API'' is added and ``Cloth Config'' is merged as its
  dependency, the names for the addon id of ``Cloth Config'' are ``Cloth Config'', not
  ``Fabric API''.
\<close>

theorem getReqiredBy_required_id_names_dependency_counterexample:
  "addResource Fabric_API Fabric_API_v1 True
      (new_dialog ModDownloadDialog (Some ModFolderModel) True) = Inr fabric_selected \<and>
   required_by Cloth_Config_v2 = [addonId Fabric_API] \<and>
   (\<exists>d'. addDependencies [\<lparr>dep_pack = Cloth_Config, dep_version = Cloth_Config_v2\<rparr>]
            fabric_selected = Inr d' \<and>
         m_selected d'
           = [(''Fabric API'', mod_task Fabric_API Fabric_API_v1 True),
              (''Cloth Config'', mod_task Cloth_Config Cloth_Config_v2 True)] \<and>
         getReqiredBy d' [addonId Cloth_Config] = [''Cloth Config''] \<and>
         getReqiredBy d' [addonId Cloth_Config] \<noteq> [''Fabric API''])"
proof -
  have loc: "pages_located fabric_selected"
    by (simp add: fabric_selected_def pages_located_mod_dialog_with)
  obtain d' where d':
    "addDependencies [\<lparr>dep_pack = Cloth_Config, dep_version = Cloth_Config_v2\<rparr>] fabric_selected
       = Inr d'"
    using addDependencies_located [OF loc] by blast
  have sel: "m_selected d'
      = [(''Fabric API'', mod_task Fabric_API Fabric_API_v1 True),
         (''Cloth Config'', mod_task Cloth_Config Cloth_Config_v2 True)]"
    using d' loc
    by (auto simp: addResource_located fabric_selected_def AList.delete_eq mod_task_def
        Cloth_Config_def new_dialog_def mod_dialog_with_def)
  have req: "getReqiredBy d' [addonId Cloth_Config] = [''Cloth Config'']"
    by (simp add: getReqiredBy_def sel mod_task_def getPack_def Fabric_API_def Cloth_Config_def)
  have "required_by Cloth_Config_v2 = [addonId Fabric_API]"
    by (simp add: Cloth_Config_v2_def Fabric_API_def)
  with d' sel req fabric_selected_reachable show ?thesis
    by simp
qed

end
